theory Spec2Isabelle
  imports Main "HOL-Library.Multiset"
begin

section \<open>The LocalGPT background store (scripts/background/initialize.js)\<close>

text \<open>
  The background script keeps one mutable object \<open>localDB\<close>, seven controllers that read and
  write it, and a message listener that routes requests to them. The controllers become
  functions from the state to the new state and the response; a thrown exception is the
  left summand of the result.
\<close>

subsection \<open>JavaScript values and objects\<close>

text \<open>
  Field values are the primitives a message can carry. Numbers are integers here (exact in
  JavaScript below \<open>2^53\<close>): nothing below rests on a fraction, and a message cannot carry
  \<open>NaN\<close>. On these values both \<open>===\<close>
  and the key comparison of \<open>Map\<close> and \<open>Set\<close> are plain equality. An object is a finite map
  from property names to values; the order of its properties is not modelled.
\<close>

datatype jsval = JUndefined | JNull | JBool bool | JNum int | JStr string

type_synonym obj = "string \<rightharpoonup> jsval"

text \<open>Truthiness, as \<open>if (v)\<close>, \<open>v || w\<close> and \<open>v && w\<close> test it.\<close>

fun truthy :: "jsval \<Rightarrow> bool" where
  "truthy JUndefined = False"
| "truthy JNull = False"
| "truthy (JBool b) = b"
| "truthy (JNum n) = (n \<noteq> 0)"
| "truthy (JStr s) = (s \<noteq> [])"

text \<open>Property read \<open>o.k\<close>: a missing property reads as \<open>undefined\<close>.\<close>

definition getProp :: "obj \<Rightarrow> string \<Rightarrow> jsval" where
  "getProp ob k = (case ob k of None \<Rightarrow> JUndefined | Some v \<Rightarrow> v)"

text \<open>\<open>c.id\<close>\<close>

definition cid :: "obj \<Rightarrow> jsval" where
  "cid c = getProp c ''id''"

text \<open>The object spread \<open>{ ...a, ...b }\<close>: the properties of both, those of \<open>b\<close> winning.\<close>

definition spread :: "obj \<Rightarrow> obj \<Rightarrow> obj" where
  "spread a b = a ++ b"

subsection \<open>The insertion-ordered \<open>Map\<close>\<close>

text \<open>
  A JavaScript \<open>Map\<close> keeps its entries in insertion order; \<open>set\<close> on a key that is present
  replaces the value where the entry stands, \<open>set\<close> on a new key appends an entry.
\<close>

type_synonym jsmap = "(jsval \<times> obj) list"

fun Map_get :: "jsmap \<Rightarrow> jsval \<Rightarrow> obj option" where
  "Map_get [] k = None"
| "Map_get ((k', v) # m) k = (if k' = k then Some v else Map_get m k)"

fun Map_set :: "jsval \<Rightarrow> obj \<Rightarrow> jsmap \<Rightarrow> jsmap" where
  "Map_set k v [] = [(k, v)]"
| "Map_set k v ((k', v') # m) = (if k' = k then (k, v) # m else (k', v') # Map_set k v m)"

text \<open>\<open>new Map(entries)\<close> sets the entries one after the other.\<close>

definition Map_new :: "(jsval \<times> obj) list \<Rightarrow> jsmap" where
  "Map_new entries = fold (\<lambda>(k, v) m. Map_set k v m) entries []"

definition Map_values :: "jsmap \<Rightarrow> obj list" where
  "Map_values m = map snd m"

subsection \<open>The state\<close>

text \<open>
  \<open>localDB\<close> with the fields the controllers use, the heap of prompt objects (prompts are
  held by reference: \<open>savePrompt\<close> is specified by what it mutates), and the number of calls
  of \<open>saveDB\<close>. Conversation objects are never written in place, so they are values. The
  collections hold objects, as every write of the controllers leaves them.
\<close>

type_synonym addr = nat

record folder =
  folder_id :: jsval
  conversationIds :: "jsval list option"

record state =
  conversations :: "obj list"
  folders :: "folder list"
  prompts :: "addr list"
  user :: obj
  heap :: "addr \<Rightarrow> obj"
  nextAddr :: addr
  saveCalls :: nat

text \<open>\<open>saveDB()\<close> restarts the debounce timer; the model counts the calls.\<close>

definition saveDB :: "state \<Rightarrow> state" where
  "saveDB st = st\<lparr>saveCalls := Suc (saveCalls st)\<rparr>"

subsection \<open>Requests and responses\<close>

text \<open>
  A request is typed as the interface table types it: a batch of conversation objects, a
  prompt object, integer \<open>page\<close> and \<open>limit\<close>; an absent field is \<open>None\<close>. The scalar fields
  the code tests for truthiness stay arbitrary values.
\<close>

record request =
  req_type :: jsval
  req_action :: jsval
  req_conversations :: "obj list option"
  req_page :: "int option"
  req_limit :: "int option"
  searchTerm :: jsval
  folderId :: jsval
  req_prompt :: "addr option"
  req_id :: jsval

datatype response =
    RespSubscription bool bool string string
  | RespUser bool obj
  | RespCount bool nat
  | RespConversations bool "obj list" nat int int
  | RespPrompts bool "addr list"
  | RespPrompt bool addr
  | RespSuccess bool
  | RespStatus string
  | RespFailure bool string
  | RespValue jsval
  | RespRequest request
  | RespController

subsection \<open>addConversations\<close>

text \<open>The body of \<open>newConvos.forEach\<close>, on the map (lines 93 to 104).\<close>

definition addStep :: "obj \<Rightarrow> jsmap \<Rightarrow> jsmap" where
  "addStep newC conversationMap =
     (case Map_get conversationMap (cid newC) of
        Some existing \<Rightarrow> Map_set (cid newC) (spread existing newC) conversationMap
      | None \<Rightarrow> Map_set (cid newC) newC conversationMap)"

definition addConversations :: "state \<Rightarrow> request \<Rightarrow> state \<times> response" where
  "addConversations st request =
     (let newConvos = (case req_conversations request of None \<Rightarrow> [] | Some cs \<Rightarrow> cs);
          changed = (newConvos \<noteq> []);
          conversationMap = Map_new (map (\<lambda>c. (cid c, c)) (conversations st));
          conversationMap' = fold addStep newConvos conversationMap;
          st' = (if changed
                 then saveDB (st\<lparr>conversations := Map_values conversationMap'\<rparr>)
                 else st)
      in (st', RespCount True (length (conversations st'))))"

text \<open>
  The earlier implementation in the same file (lines 306 to 325): \<open>findIndex\<close> on the array,
  then an assignment at the index or a \<open>push\<close>.
\<close>

fun findIndex :: "('a \<Rightarrow> bool) \<Rightarrow> 'a list \<Rightarrow> nat option" where
  "findIndex P [] = None"
| "findIndex P (x # xs) = (if P x then Some 0 else map_option Suc (findIndex P xs))"

definition addStep_findIndex :: "obj \<Rightarrow> obj list \<Rightarrow> obj list" where
  "addStep_findIndex newC cs =
     (case findIndex (\<lambda>c. cid c = cid newC) cs of
        Some index \<Rightarrow> cs[index := spread (cs ! index) newC]
      | None \<Rightarrow> cs @ [newC])"

definition addConversations_findIndex :: "state \<Rightarrow> request \<Rightarrow> state \<times> response" where
  "addConversations_findIndex st request =
     (let newConvos = (case req_conversations request of None \<Rightarrow> [] | Some cs \<Rightarrow> cs);
          changed = (newConvos \<noteq> []);
          st1 = st\<lparr>conversations := fold addStep_findIndex newConvos (conversations st)\<rparr>;
          st' = (if changed then saveDB st1 else st1)
      in (st', RespCount True (length (conversations st'))))"

subsection \<open>getConversations\<close>

text \<open>
  What the platform supplies: the date parser behind \<open>new Date(string)\<close> (\<open>None\<close> is
  \<open>NaN\<close>) and the value \<open>crypto.randomUUID()\<close> returns at this call.
\<close>

record env =
  Date_parse :: "string \<Rightarrow> int option"
  randomUUID :: string

datatype exn = TypeError string

text \<open>\<open>toLowerCase\<close> on the ASCII letters, and \<open>s.includes(t)\<close>.\<close>

definition toLowerCase :: "string \<Rightarrow> string" where
  "toLowerCase s =
     map (\<lambda>c. let n = (of_char c :: nat) in if 65 \<le> n \<and> n \<le> 90 then char_of (n + 32) else c) s"

fun str_includes :: "string \<Rightarrow> string \<Rightarrow> bool" where
  "str_includes [] t = (t = [])"
| "str_includes (x # s) t = (take (length t) (x # s) = t \<or> str_includes s t)"

text \<open>
  The callback of the text filter (line 123): a falsy title is dropped, a string title is
  searched, and any other truthy title has no \<open>toLowerCase\<close>, so the call throws.
\<close>

definition titleMatches :: "string \<Rightarrow> obj \<Rightarrow> exn + bool" where
  "titleMatches lowerTerm c =
     (let title = getProp c ''title'' in
      if \<not> truthy title then Inr False
      else (case title of
              JStr s \<Rightarrow> Inr (str_includes (toLowerCase s) lowerTerm)
            | _ \<Rightarrow> Inl (TypeError ''c.title.toLowerCase is not a function'')))"

fun titleFilter :: "string \<Rightarrow> obj list \<Rightarrow> exn + obj list" where
  "titleFilter lowerTerm [] = Inr []"
| "titleFilter lowerTerm (c # cs) =
     (case titleMatches lowerTerm c of
        Inl e \<Rightarrow> Inl e
      | Inr keep \<Rightarrow>
          (case titleFilter lowerTerm cs of
             Inl e \<Rightarrow> Inl e
           | Inr r \<Rightarrow> Inr (if keep then c # r else r)))"

text \<open>
  The variable \<open>results\<close> starts as the array of the store itself and becomes a new array
  as soon as one \<open>filter\<close> runs. The sort of line 141 works in place on whichever it is.
\<close>

datatype arrayRef = StoreArray | Fresh "obj list"

definition deref :: "state \<Rightarrow> arrayRef \<Rightarrow> obj list" where
  "deref st r = (case r of StoreArray \<Rightarrow> conversations st | Fresh xs \<Rightarrow> xs)"

definition searchFilter :: "state \<Rightarrow> jsval \<Rightarrow> arrayRef \<Rightarrow> exn + arrayRef" where
  "searchFilter st term results =
     (if truthy term
      then (case term of
              JStr s \<Rightarrow>
                (case titleFilter (toLowerCase s) (deref st results) of
                   Inl e \<Rightarrow> Inl e
                 | Inr r \<Rightarrow> Inr (Fresh r))
            | _ \<Rightarrow> Inl (TypeError ''searchTerm.toLowerCase is not a function''))
      else Inr results)"

definition folderFilter :: "state \<Rightarrow> jsval \<Rightarrow> arrayRef \<Rightarrow> arrayRef" where
  "folderFilter st fid results =
     (if truthy fid \<and> fid \<noteq> JStr ''all''
      then (case find (\<lambda>f. folder_id f = fid) (folders st) of
              Some folder \<Rightarrow>
                (let allowedIds = (case conversationIds folder of None \<Rightarrow> [] | Some ids \<Rightarrow> ids)
                 in Fresh (filter (\<lambda>c. cid c \<in> set allowedIds) (deref st results)))
            | None \<Rightarrow>
                if fid = JStr ''trash''
                then Fresh (filter (\<lambda>c. truthy (getProp c ''isTrashed'')) (deref st results))
                else results)
      else results)"

text \<open>
  \<open>new Date(v).getTime()\<close>: a number is clipped to the range of dates, a string is parsed,
  anything else is converted to a number first.
\<close>

definition getTime :: "env \<Rightarrow> jsval \<Rightarrow> int option" where
  "getTime e v =
     (case v of
        JNum n \<Rightarrow> if \<bar>n\<bar> \<le> 8640000000000000 then Some n else None
      | JStr s \<Rightarrow> Date_parse e s
      | JBool b \<Rightarrow> Some (if b then 1 else 0)
      | JNull \<Rightarrow> Some 0
      | JUndefined \<Rightarrow> None)"

definition timeOf :: "env \<Rightarrow> obj \<Rightarrow> int option" where
  "timeOf e a =
     getTime e (if truthy (getProp a ''update_time'') then getProp a ''update_time''
                else if truthy (getProp a ''create_time'') then getProp a ''create_time''
                else JNum 0)"

text \<open>The comparator of line 141; \<open>None\<close> is \<open>NaN\<close>, which \<open>sort\<close> reads as 0.\<close>

definition compareFn :: "env \<Rightarrow> obj \<Rightarrow> obj \<Rightarrow> int option" where
  "compareFn e a b =
     (case (timeOf e a, timeOf e b) of
        (Some timeA, Some timeB) \<Rightarrow> Some (timeB - timeA)
      | _ \<Rightarrow> None)"

text \<open>
  \<open>Array.prototype.sort\<close> is stable. With a consistent comparator every stable sort gives
  the result of this insertion sort; when a timestamp is \<open>NaN\<close> the language leaves the
  order to the engine, and the model keeps the insertion sort.
\<close>

fun sortInsert :: "('a \<Rightarrow> 'a \<Rightarrow> int option) \<Rightarrow> 'a \<Rightarrow> 'a list \<Rightarrow> 'a list" where
  "sortInsert cmp x [] = [x]"
| "sortInsert cmp x (y # ys) =
     (if (case cmp x y of Some v \<Rightarrow> v \<le> 0 | None \<Rightarrow> True) then x # y # ys
      else y # sortInsert cmp x ys)"

definition Array_sort :: "('a \<Rightarrow> 'a \<Rightarrow> int option) \<Rightarrow> 'a list \<Rightarrow> 'a list" where
  "Array_sort cmp xs = foldr (sortInsert cmp) xs []"

text \<open>\<open>xs.slice(start, end)\<close>; a negative index counts from the end.\<close>

definition Array_slice :: "'a list \<Rightarrow> int \<Rightarrow> int \<Rightarrow> 'a list" where
  "Array_slice xs start end' =
     (let len = int (length xs);
          k = (if start < 0 then max (len + start) 0 else min start len);
          final = (if end' < 0 then max (len + end') 0 else min end' len)
      in take (nat (final - k)) (drop (nat k) xs))"

definition sortInPlace :: "env \<Rightarrow> state \<Rightarrow> arrayRef \<Rightarrow> state \<times> arrayRef" where
  "sortInPlace e st results =
     (case results of
        StoreArray \<Rightarrow> (st\<lparr>conversations := Array_sort (compareFn e) (conversations st)\<rparr>, StoreArray)
      | Fresh xs \<Rightarrow> (st, Fresh (Array_sort (compareFn e) xs)))"

definition getConversations :: "env \<Rightarrow> state \<Rightarrow> request \<Rightarrow> exn + state \<times> response" where
  "getConversations e st request =
     (let page = (case req_page request of None \<Rightarrow> 1 | Some p \<Rightarrow> p);
          limit = (case req_limit request of None \<Rightarrow> 20 | Some l \<Rightarrow> l)
      in case searchFilter st (searchTerm request) StoreArray of
           Inl err \<Rightarrow> Inl err
         | Inr results1 \<Rightarrow>
             (let results2 = folderFilter st (folderId request) results1;
                  (st', results3) = sortInPlace e st results2;
                  total = length (deref st' results3);
                  start = (page - 1) * limit;
                  paginated = Array_slice (deref st' results3) start (start + limit)
              in Inr (st', RespConversations True paginated total page limit)))"

subsection \<open>The other controllers\<close>

definition checkHasSubscription :: "state \<Rightarrow> request \<Rightarrow> state \<times> response" where
  "checkHasSubscription st request = (st, RespSubscription True True ''pro'' ''stripe'')"

definition registerUser :: "state \<Rightarrow> request \<Rightarrow> state \<times> response" where
  "registerUser st request = (st, RespUser True (user st))"

definition getPrompts :: "state \<Rightarrow> request \<Rightarrow> state \<times> response" where
  "getPrompts st request = (st, RespPrompts True (prompts st))"

text \<open>A new object on the heap, as an object literal creates it.\<close>

definition newObject :: "obj \<Rightarrow> state \<Rightarrow> addr \<times> state" where
  "newObject content st =
     (nextAddr st, st\<lparr>heap := (heap st)(nextAddr st := content), nextAddr := Suc (nextAddr st)\<rparr>)"

text \<open>The assignment \<open>a.k = v\<close> on the object at address \<open>a\<close>.\<close>

definition setProp :: "addr \<Rightarrow> string \<Rightarrow> jsval \<Rightarrow> state \<Rightarrow> state" where
  "setProp a k v st = st\<lparr>heap := (heap st)(a := (heap st a)(k \<mapsto> v))\<rparr>"

text \<open>
  \<open>savePrompt\<close> (lines 166 to 178). \<open>{ ...prompt }\<close> is a new object with the properties of
  \<open>prompt\<close> (none when \<open>prompt\<close> is missing); the id is written to the copy.
\<close>

definition savePrompt :: "env \<Rightarrow> state \<Rightarrow> request \<Rightarrow> state \<times> response" where
  "savePrompt e st request =
     (let prompt = req_prompt request;
          (promptCopy, st1) =
             newObject (case prompt of None \<Rightarrow> Map.empty | Some p \<Rightarrow> heap st p) st;
          st2 = (if \<not> truthy (cid (heap st1 promptCopy))
                 then setProp promptCopy ''id'' (JStr (randomUUID e)) st1 else st1);
          index = findIndex (\<lambda>p. cid (heap st2 p) = cid (heap st2 promptCopy)) (prompts st2);
          st3 = (case index of
                   Some i \<Rightarrow> st2\<lparr>prompts := (prompts st2)[i := promptCopy]\<rparr>
                 | None \<Rightarrow> st2\<lparr>prompts := prompts st2 @ [promptCopy]\<rparr>)
      in (saveDB st3, RespPrompt True promptCopy))"

definition deletePrompt :: "state \<Rightarrow> request \<Rightarrow> state \<times> response" where
  "deletePrompt st request =
     (saveDB (st\<lparr>prompts := filter (\<lambda>p. cid (heap st p) \<noteq> req_id request) (prompts st)\<rparr>),
      RespSuccess True)"

subsection \<open>The message router\<close>

text \<open>
  \<open>Controller[action]\<close> reads a property of an object literal, so it finds the seven
  controllers and also what every object inherits from \<open>Object.prototype\<close>. An action that
  is not a string is converted to one (\<open>undefined\<close>, \<open>null\<close>, \<open>true\<close>, \<open>false\<close> or a numeral),
  and none of these names a property.
\<close>

datatype member =
    CheckHasSubscription | RegisterUser | AddConversations | GetConversations
  | GetPrompts | SavePrompt | DeletePrompt
  | Inherited string

definition controllerNames :: "(string \<times> member) list" where
  "controllerNames =
     [(''checkHasSubscription'', CheckHasSubscription),
      (''registerUser'', RegisterUser),
      (''addConversations'', AddConversations),
      (''getConversations'', GetConversations),
      (''getPrompts'', GetPrompts),
      (''savePrompt'', SavePrompt),
      (''deletePrompt'', DeletePrompt)]"

definition objectPrototypeNames :: "string list" where
  "objectPrototypeNames =
     [''constructor'', ''hasOwnProperty'', ''isPrototypeOf'', ''propertyIsEnumerable'',
      ''toLocaleString'', ''toString'', ''valueOf'', ''__proto__'',
      ''__defineGetter__'', ''__defineSetter__'', ''__lookupGetter__'', ''__lookupSetter__'']"

definition Controller :: "jsval \<Rightarrow> member option" where
  "Controller action =
     (case action of
        JStr name \<Rightarrow>
          (case map_of controllerNames name of
             Some m \<Rightarrow> Some m
           | None \<Rightarrow> if name \<in> set objectPrototypeNames then Some (Inherited name) else None)
      | _ \<Rightarrow> None)"

text \<open>
  An inherited member called as \<open>Controller[action](request)\<close>: \<open>this\<close> is \<open>Controller\<close> and
  the one argument is the request object. \<open>__proto__\<close> reads as an object that is not a
  function, and the two definers want a function as second argument: these calls throw.
  The message texts are those of V8.
\<close>

definition callInherited :: "string \<Rightarrow> request \<Rightarrow> exn + response" where
  "callInherited name request =
     (if name = ''toString'' \<or> name = ''toLocaleString'' then Inr (RespValue (JStr ''[object Object]''))
      else if name = ''valueOf'' then Inr RespController
      else if name = ''constructor'' then Inr (RespRequest request)
      else if name = ''hasOwnProperty'' \<or> name = ''isPrototypeOf'' \<or> name = ''propertyIsEnumerable''
        then Inr (RespValue (JBool False))
      else if name = ''__lookupGetter__'' \<or> name = ''__lookupSetter__'' then Inr (RespValue JUndefined)
      else if name = ''__defineGetter__''
        then Inl (TypeError ''Object.prototype.__defineGetter__: Expected a function'')
      else if name = ''__defineSetter__''
        then Inl (TypeError ''Object.prototype.__defineSetter__: Expected a function'')
      else Inl (TypeError ''Controller[action] is not a function''))"

fun callMember :: "env \<Rightarrow> state \<Rightarrow> request \<Rightarrow> member \<Rightarrow> exn + state \<times> response" where
  "callMember e st request CheckHasSubscription = Inr (checkHasSubscription st request)"
| "callMember e st request RegisterUser = Inr (registerUser st request)"
| "callMember e st request AddConversations = Inr (addConversations st request)"
| "callMember e st request GetConversations = getConversations e st request"
| "callMember e st request GetPrompts = Inr (getPrompts st request)"
| "callMember e st request SavePrompt = Inr (savePrompt e st request)"
| "callMember e st request DeletePrompt = Inr (deletePrompt st request)"
| "callMember e st request (Inherited name) =
     (case callInherited name request of Inl err \<Rightarrow> Inl err | Inr r \<Rightarrow> Inr (st, r))"

text \<open>
  \<open>handleMessage\<close> (lines 215 to 231): the new state and what \<open>sendResponse\<close> receives. A
  controller throws before it has written anything, so the state of the \<open>catch\<close> branch is
  the state at entry. \<open>requestAction\<close> is \<open>request.type || request.action\<close>.
\<close>

definition requestAction :: "request \<Rightarrow> jsval" where
  "requestAction request =
     (if truthy (req_type request) then req_type request else req_action request)"

definition handleMessage :: "env \<Rightarrow> state \<Rightarrow> request \<Rightarrow> state \<times> response" where
  "handleMessage e st request =
     (let action = requestAction request
      in case Controller action of
           Some m \<Rightarrow>
             (case callMember e st request m of
                Inr (st', response) \<Rightarrow> (st', response)
              | Inl (TypeError message) \<Rightarrow> (st, RespFailure False message))
         | None \<Rightarrow>
             if action = JStr ''ping'' then (st, RespStatus ''ok'')
             else (st, RespFailure False ''Unknown action''))"

text \<open>
  The listener (lines 191 to 213). \<open>isDBReady t\<close> is the flag as the listener reads it:
  \<open>t = 0\<close> when the message arrives, and again at the top of each round of the retry loop,
  one \<open>retryDelay\<close> after the round before. The loop returns the round in which it calls
  \<open>handleMessage\<close>, or \<open>None\<close> when the ten rounds are used up. The state \<open>st\<close> is
  \<open>localDB\<close> at the moment \<open>handleMessage\<close> runs.
\<close>

definition maxRetries :: nat where
  "maxRetries = 10"

function retryLoop :: "(nat \<Rightarrow> bool) \<Rightarrow> nat \<Rightarrow> nat option" where
  "retryLoop isDBReady retries =
     (if retries < maxRetries
      then (if isDBReady retries then Some retries else retryLoop isDBReady (Suc retries))
      else None)"
  by pat_completeness auto
termination
  by (relation "measure (\<lambda>(isDBReady, retries). maxRetries - retries)") auto

declare retryLoop.simps [simp del]

definition onMessage :: "env \<Rightarrow> (nat \<Rightarrow> bool) \<Rightarrow> state \<Rightarrow> request \<Rightarrow> state \<times> response" where
  "onMessage e isDBReady st request =
     (if \<not> isDBReady 0
      then (case retryLoop isDBReady 0 of
              Some t \<Rightarrow> handleMessage e st request
            | None \<Rightarrow> (st, RespFailure False ''Database initialization timeout''))
      else handleMessage e st request)"

subsection \<open>Notions used in the proofs\<close>

text \<open>The entries \<open>localDB.conversations.map(c => [c.id, c])\<close> (line 90).\<close>

definition entriesOf :: "obj list \<Rightarrow> jsmap" where
  "entriesOf cs = map (\<lambda>c. (cid c, c)) cs"

text \<open>Every entry of the map stands under the id of its value.\<close>

definition keyed :: "jsmap \<Rightarrow> bool" where
  "keyed m \<longleftrightarrow> map fst m = map cid (map snd m)"

text \<open>What a batch writes onto the record with id \<open>k\<close>, starting from \<open>base\<close>.\<close>

definition merged :: "jsval \<Rightarrow> obj list \<Rightarrow> obj \<Rightarrow> obj" where
  "merged k ns base = fold (\<lambda>n acc. if cid n = k then spread acc n else acc) ns base"

text \<open>The map at the end of \<open>addConversations\<close>.\<close>

definition mapAfter :: "obj list \<Rightarrow> obj list \<Rightarrow> jsmap" where
  "mapAfter cs ns = fold addStep ns (Map_new (entriesOf cs))"

section \<open>The merge engine\<close>

subsection \<open>The map against the array\<close>

lemma cid_spread: "cid existing = cid newC \<Longrightarrow> cid (spread existing newC) = cid newC"
  by (auto simp: cid_def getProp_def spread_def map_add_def split: option.splits)

lemma entriesOf_eq: "entriesOf cs = map (\<lambda>c. (cid c, c)) cs"
  by (simp add: entriesOf_def)

lemma Map_get_entriesOf: "Map_get (entriesOf cs) k = find (\<lambda>c. cid c = k) cs"
  by (induction cs) (auto simp: entriesOf_def)

lemma findIndex_Some:
  "findIndex P xs = Some i \<Longrightarrow> i < length xs \<and> P (xs ! i) \<and> (\<forall>j<i. \<not> P (xs ! j))"
proof (induction xs arbitrary: i)
  case Nil
  then show ?case by simp
next
  case (Cons x xs)
  show ?case
  proof (cases "P x")
    case True
    with Cons.prems show ?thesis by simp
  next
    case False
    with Cons.prems obtain j where j: "findIndex P xs = Some j" "i = Suc j" by auto
    from Cons.IH[OF j(1)] False j(2) show ?thesis
      by (auto simp: less_Suc_eq_0_disj)
  qed
qed


lemma find_findIndex: "find P xs = map_option (\<lambda>i. xs ! i) (findIndex P xs)"
  by (induction xs) (auto simp: option.map_comp comp_def)

lemma Map_set_entriesOf_found:
  "findIndex (\<lambda>c. cid c = k) cs = Some i \<Longrightarrow> cid v = k \<Longrightarrow>
   Map_set k v (entriesOf cs) = entriesOf (cs[i := v])"
proof (induction cs arbitrary: i)
  case Nil
  then show ?case by simp
next
  case (Cons c cs)
  then show ?case
    by (cases "cid c = k") (auto simp: entriesOf_def)
qed

lemma Map_set_entriesOf_new:
  "findIndex (\<lambda>c. cid c = k) cs = None \<Longrightarrow> cid v = k \<Longrightarrow>
   Map_set k v (entriesOf cs) = entriesOf (cs @ [v])"
  by (induction cs) (auto simp: entriesOf_def split: if_splits)

text \<open>One round of the loop does the same on the map and on the array.\<close>

lemma addStep_entriesOf: "addStep newC (entriesOf cs) = entriesOf (addStep_findIndex newC cs)"
proof (cases "findIndex (\<lambda>c. cid c = cid newC) cs")
  case None
  then show ?thesis
    by (simp add: addStep_def addStep_findIndex_def Map_get_entriesOf find_findIndex
        Map_set_entriesOf_new)
next
  case (Some i)
  from findIndex_Some[OF Some] have "cid (cs ! i) = cid newC" by simp
  with Some show ?thesis
    by (simp add: addStep_def addStep_findIndex_def Map_get_entriesOf find_findIndex
        Map_set_entriesOf_found cid_spread)
qed

lemma fold_addStep_entriesOf:
  "fold addStep ns (entriesOf cs) = entriesOf (fold addStep_findIndex ns cs)"
  by (induction ns arbitrary: cs) (simp_all add: addStep_entriesOf)

lemma Map_values_entriesOf: "Map_values (entriesOf cs) = cs"
  by (simp add: Map_values_def entriesOf_def comp_def)

lemma Map_set_fresh: "k \<notin> fst ` set m \<Longrightarrow> Map_set k v m = m @ [(k, v)]"
  by (induction m) auto

lemma fold_Map_set_distinct:
  "distinct (map fst xs) \<Longrightarrow> fst ` set acc \<inter> fst ` set xs = {} \<Longrightarrow>
   fold (\<lambda>(k, v) m. Map_set k v m) xs acc = acc @ xs"
proof (induction xs arbitrary: acc)
  case Nil
  then show ?case by simp
next
  case (Cons x xs)
  obtain k v where x: "x = (k, v)" by (cases x)
  from Cons.prems x have fresh: "k \<notin> fst ` set acc" by auto
  have "fst ` set (acc @ [(k, v)]) \<inter> fst ` set xs = {}"
    using Cons.prems x by auto
  with Cons.IH[of "acc @ [(k, v)]"] Cons.prems x fresh show ?case
    by (simp add: Map_set_fresh)
qed

lemma Map_new_distinct: "distinct (map fst m) \<Longrightarrow> Map_new m = m"
  using fold_Map_set_distinct[of m "[]"] by (simp add: Map_new_def)

lemma Map_new_entriesOf:
  "distinct (map cid cs) \<Longrightarrow> Map_new (entriesOf cs) = entriesOf cs"
  by (rule Map_new_distinct) (simp add: entriesOf_def comp_def)

subsection \<open>Keys and lookups of the map\<close>

lemma Map_get_Map_set: "Map_get (Map_set k v m) k' = (if k' = k then Some v else Map_get m k')"
  by (induction m) auto

lemma keys_Map_set:
  "map fst (Map_set k v m) = (if k \<in> set (map fst m) then map fst m else map fst m @ [k])"
  by (induction m) (force simp: image_iff)+

lemma Map_get_None_iff: "Map_get m k = None \<longleftrightarrow> k \<notin> set (map fst m)"
  by (induction m) (force simp: image_iff)+


lemma keys_addStep:
  "map fst (addStep n m) = (if cid n \<in> set (map fst m) then map fst m else map fst m @ [cid n])"
  by (simp add: addStep_def keys_Map_set split: option.splits)

lemma Map_get_addStep:
  "Map_get (addStep n m) k =
     (if k = cid n then Some (case Map_get m k of Some e \<Rightarrow> spread e n | None \<Rightarrow> n)
      else Map_get m k)"
  by (simp add: addStep_def Map_get_Map_set split: option.splits)

lemma distinct_keys_addStep: "distinct (map fst m) \<Longrightarrow> distinct (map fst (addStep n m))"
  by (simp add: keys_addStep)

lemma distinct_keys_fold_addStep:
  "distinct (map fst m) \<Longrightarrow> distinct (map fst (fold addStep ns m))"
  by (induction ns arbitrary: m) (simp_all add: distinct_keys_addStep)

lemma keys_fold_addStep_known:
  "set (map cid ns) \<subseteq> set (map fst m) \<Longrightarrow> map fst (fold addStep ns m) = map fst m"
proof (induction ns arbitrary: m)
  case Nil
  then show ?case by simp
next
  case (Cons n ns)
  from Cons.prems have k: "map fst (addStep n m) = map fst m"
    by (simp add: keys_addStep del: set_map)
  with Cons.prems have "set (map cid ns) \<subseteq> set (map fst (addStep n m))"
    by (simp del: set_map)
  from Cons.IH[OF this] k show ?case by simp
qed

lemma keys_addStep_mono: "set (map fst m) \<subseteq> set (map fst (addStep n m))"
  by (auto simp: keys_addStep simp del: set_map)

lemma keys_fold_addStep_mono: "set (map fst m) \<subseteq> set (map fst (fold addStep ns m))"
proof (induction ns arbitrary: m)
  case Nil
  then show ?case by simp
next
  case (Cons n ns)
  have "set (map fst m) \<subseteq> set (map fst (addStep n m))" by (rule keys_addStep_mono)
  also have "\<dots> \<subseteq> set (map fst (fold addStep ns (addStep n m)))" by (rule Cons.IH)
  finally show ?case by simp
qed

lemma cid_in_keys_addStep: "cid n \<in> set (map fst (addStep n m))"
  by (simp add: keys_addStep del: set_map)

lemma keys_fold_addStep_batch: "set (map cid ns) \<subseteq> set (map fst (fold addStep ns m))"
proof (induction ns arbitrary: m)
  case Nil
  then show ?case by simp
next
  case (Cons n ns)
  have "cid n \<in> set (map fst (addStep n m))" by (rule cid_in_keys_addStep)
  with keys_fold_addStep_mono[of "addStep n m" ns]
  have "cid n \<in> set (map fst (fold addStep ns (addStep n m)))" by blast
  with Cons.IH[of "addStep n m"] show ?case by (simp del: set_map)
qed

subsection \<open>What a batch leaves under one id\<close>

lemma merged_Nil: "merged k [] base = base"
  by (simp add: merged_def)

lemma merged_Cons:
  "merged k (n # ns) base = merged k ns (if cid n = k then spread base n else base)"
  by (simp add: merged_def)

lemma merged_notin: "k \<notin> set (map cid ns) \<Longrightarrow> merged k ns base = base"
  by (induction ns arbitrary: base) (auto simp: merged_Nil merged_Cons)

lemma merged_base: "merged k ns base = base ++ merged k ns Map.empty"
proof (induction ns arbitrary: base)
  case Nil
  then show ?case by (simp add: merged_Nil)
next
  case (Cons n ns)
  show ?case
  proof (cases "cid n = k")
    case True
    have "merged k (n # ns) base = (base ++ n) ++ merged k ns Map.empty"
      using True Cons.IH[of "base ++ n"] by (simp add: merged_Cons spread_def)
    moreover have "merged k (n # ns) Map.empty = n ++ merged k ns Map.empty"
      using True Cons.IH[of n] by (simp add: merged_Cons spread_def)
    ultimately show ?thesis by simp
  next
    case False
    then show ?thesis using Cons.IH[of base] by (simp add: merged_Cons)
  qed
qed

lemma map_add_twice: "(m ++ x) ++ x = m ++ (x :: 'a \<rightharpoonup> 'b)"
  by (rule ext) (simp add: map_add_def split: option.splits)

lemma merged_idem: "merged k ns (merged k ns base) = merged k ns base"
proof -
  define x where "x = merged k ns Map.empty"
  have 1: "merged k ns base = base ++ x"
    unfolding x_def by (rule merged_base)
  have 2: "merged k ns (base ++ x) = (base ++ x) ++ x"
    unfolding x_def by (rule merged_base)
  show ?thesis
    by (simp only: 1 2 map_add_twice)
qed

lemma Map_get_fold_addStep:
  "Map_get (fold addStep ns m) k =
     (if k \<in> set (map cid ns)
      then Some (merged k ns (case Map_get m k of Some e \<Rightarrow> e | None \<Rightarrow> Map.empty))
      else Map_get m k)"
proof (induction ns arbitrary: m)
  case Nil
  then show ?case by simp
next
  case (Cons n ns)
  have spread_empty: "spread Map.empty n = n" by (simp add: spread_def)
  show ?case
  proof (cases "k = cid n")
    case True
    then show ?thesis
      using Cons.IH[of "addStep n m"]
      by (auto simp: Map_get_addStep merged_Cons merged_notin spread_empty split: option.splits)
  next
    case False
    then show ?thesis
      using Cons.IH[of "addStep n m"]
      by (auto simp: Map_get_addStep merged_Cons)
  qed
qed

text \<open>Two maps with the same keys in the same order and the same lookups are equal.\<close>

lemma jsmap_eqI:
  "map fst m1 = map fst m2 \<Longrightarrow> distinct (map fst m1) \<Longrightarrow>
   (\<And>k. Map_get m1 k = Map_get m2 k) \<Longrightarrow> m1 = m2"
proof (induction m1 arbitrary: m2)
  case Nil
  then show ?case by simp
next
  case (Cons p m1)
  from Cons.prems(1) obtain q m2' where m2: "m2 = q # m2'" by (cases m2) auto
  obtain k v where p: "p = (k, v)" by (cases p)
  obtain k' v' where q: "q = (k', v')" by (cases q)
  from Cons.prems(1) m2 p q have kk: "k' = k" and keys: "map fst m1 = map fst m2'" by auto
  from Cons.prems(3)[of k] m2 p q kk have vv: "v' = v" by simp
  from Cons.prems(2) p have knot: "k \<notin> set (map fst m1)" and d: "distinct (map fst m1)" by auto
  have "Map_get m1 j = Map_get m2' j" for j
  proof (cases "j = k")
    case True
    from knot have "Map_get m1 k = None" by (simp add: Map_get_None_iff)
    moreover from knot keys have "k \<notin> set (map fst m2')" by simp
    then have "Map_get m2' k = None" by (simp add: Map_get_None_iff)
    ultimately show ?thesis using True by simp
  next
    case False
    with Cons.prems(3)[of j] m2 p q kk show ?thesis by auto
  qed
  from Cons.IH[OF keys d this] m2 p q kk vv show ?case by simp
qed

lemma fold_addStep_idem:
  assumes "distinct (map fst m)"
  shows "fold addStep ns (fold addStep ns m) = fold addStep ns m"
proof (rule jsmap_eqI)
  show "map fst (fold addStep ns (fold addStep ns m)) = map fst (fold addStep ns m)"
    by (rule keys_fold_addStep_known) (rule keys_fold_addStep_batch)
  show "distinct (map fst (fold addStep ns (fold addStep ns m)))"
    by (intro distinct_keys_fold_addStep assms)
  show "Map_get (fold addStep ns (fold addStep ns m)) k = Map_get (fold addStep ns m) k" for k
    by (simp add: Map_get_fold_addStep merged_idem)
qed

subsection \<open>The map stays keyed by the ids of its values\<close>

lemma keyed_Nil: "keyed []"
  by (simp add: keyed_def)

lemma keyed_Cons: "keyed ((k, v) # m) \<longleftrightarrow> k = cid v \<and> keyed m"
  by (simp add: keyed_def del: map_eq_conv)

lemma keyed_eq: "keyed m \<Longrightarrow> entriesOf (Map_values m) = m"
  by (induction m) (auto simp: keyed_Cons entriesOf_def Map_values_def)

lemma keyed_Map_set: "keyed m \<Longrightarrow> cid v = k \<Longrightarrow> keyed (Map_set k v m)"
  by (induction m) (auto simp: keyed_Nil keyed_Cons)

lemma keyed_Map_get: "keyed m \<Longrightarrow> Map_get m k = Some e \<Longrightarrow> cid e = k"
  by (induction m) (auto simp: keyed_Cons split: if_splits)

lemma keyed_addStep: "keyed m \<Longrightarrow> keyed (addStep n m)"
  by (auto simp: addStep_def keyed_Map_set keyed_Map_get cid_spread split: option.splits)

lemma keyed_fold_addStep: "keyed m \<Longrightarrow> keyed (fold addStep ns m)"
  by (induction ns arbitrary: m) (simp_all add: keyed_addStep)

lemma keyed_fold_Map_set:
  "keyed acc \<Longrightarrow> keyed (fold (\<lambda>(k, v) m. Map_set k v m) (entriesOf cs) acc)"
  by (induction cs arbitrary: acc) (simp_all add: entriesOf_def keyed_Map_set)

lemma distinct_fold_Map_set:
  "distinct (map fst acc) \<Longrightarrow> distinct (map fst (fold (\<lambda>(k, v) m. Map_set k v m) xs acc))"
  by (induction xs arbitrary: acc) (auto simp: keys_Map_set simp del: set_map)

lemma keyed_Map_new: "keyed (Map_new (entriesOf cs))"
  unfolding Map_new_def by (rule keyed_fold_Map_set) (rule keyed_Nil)

lemma distinct_Map_new: "distinct (map fst (Map_new xs))"
  unfolding Map_new_def by (rule distinct_fold_Map_set) simp

lemma ids_Map_values: "keyed m \<Longrightarrow> map cid (Map_values m) = map fst m"
  by (simp add: keyed_def Map_values_def del: map_eq_conv map_map)

lemma keyed_mapAfter: "keyed (mapAfter cs ns)"
  unfolding mapAfter_def by (intro keyed_fold_addStep keyed_Map_new)

lemma distinct_mapAfter: "distinct (map fst (mapAfter cs ns))"
  unfolding mapAfter_def by (intro distinct_keys_fold_addStep distinct_Map_new)

subsection \<open>The conversations after a call\<close>

lemma conversations_addConversations:
  "conversations (fst (addConversations st request)) =
     (case req_conversations request of
        None \<Rightarrow> conversations st
      | Some ns \<Rightarrow> if ns = [] then conversations st
                   else Map_values (mapAfter (conversations st) ns))"
  by (simp add: addConversations_def Let_def saveDB_def mapAfter_def entriesOf_eq
      split: option.splits)

lemma mapAfter_again: "mapAfter (Map_values (mapAfter cs ns)) ns = mapAfter cs ns"
proof -
  have "Map_new (entriesOf (Map_values (mapAfter cs ns))) = mapAfter cs ns"
    by (simp add: keyed_eq keyed_mapAfter Map_new_distinct distinct_mapAfter)
  then show ?thesis
    unfolding mapAfter_def by (simp add: fold_addStep_idem distinct_Map_new)
qed

lemma mapAfter_findIndex:
  "distinct (map cid cs) \<Longrightarrow> Map_values (mapAfter cs ns) = fold addStep_findIndex ns cs"
  by (simp add: mapAfter_def Map_new_entriesOf fold_addStep_entriesOf Map_values_entriesOf)



text \<open>
  C4: \<open>addConversations\<close> is idempotent. For every state and every request, running the
  controller a second time with the same batch leaves the conversations that the first
  run left: the same records with the same contents, in the same order.
\<close>

theorem addConversations_idempotent:
  "conversations (fst (addConversations (fst (addConversations st request)) request)) =
   conversations (fst (addConversations st request))"
  by (simp add: conversations_addConversations mapAfter_again split: option.splits)

text \<open>
  C7: at most one conversation per id is an invariant of \<open>addConversations\<close>. When the ids
  of the stored conversations are pairwise different before the call, they are pairwise
  different after it, whatever the batch.
\<close>

theorem addConversations_unique_ids:
  "distinct (map cid (conversations st)) \<Longrightarrow>
   distinct (map cid (conversations (fst (addConversations st request))))"
  by (simp add: conversations_addConversations ids_Map_values keyed_mapAfter distinct_mapAfter
      split: option.splits del: distinct_map)

theorem addConversations_unique_ids_witness:
  "distinct (map cid (conversations
      \<lparr>conversations = [[''id'' \<mapsto> JStr ''a'', ''title'' \<mapsto> JStr ''Old''], [''id'' \<mapsto> JStr ''b'']],
       folders = [], prompts = [], user = Map.empty, heap = (\<lambda>a. Map.empty),
       nextAddr = 0, saveCalls = 0\<rparr>))
   \<and> distinct (map cid (conversations (fst (addConversations
      \<lparr>conversations = [[''id'' \<mapsto> JStr ''a'', ''title'' \<mapsto> JStr ''Old''], [''id'' \<mapsto> JStr ''b'']],
       folders = [], prompts = [], user = Map.empty, heap = (\<lambda>a. Map.empty),
       nextAddr = 0, saveCalls = 0\<rparr>
      \<lparr>req_type = JStr ''addConversations'', req_action = JUndefined,
       req_conversations = Some [[''id'' \<mapsto> JStr ''b'', ''title'' \<mapsto> JStr ''New''],
                                 [''id'' \<mapsto> JStr ''c''], [''id'' \<mapsto> JStr ''c'', ''x'' \<mapsto> JNum 1]],
       req_page = None, req_limit = None, searchTerm = JUndefined, folderId = JUndefined,
       req_prompt = None, req_id = JUndefined\<rparr>))))"
  using addConversations_unique_ids
    [where st = "\<lparr>conversations = [[''id'' \<mapsto> JStr ''a'', ''title'' \<mapsto> JStr ''Old''], [''id'' \<mapsto> JStr ''b'']],
       folders = [], prompts = [], user = Map.empty, heap = (\<lambda>a. Map.empty),
       nextAddr = 0, saveCalls = 0\<rparr>"
     and request = "\<lparr>req_type = JStr ''addConversations'', req_action = JUndefined,
       req_conversations = Some [[''id'' \<mapsto> JStr ''b'', ''title'' \<mapsto> JStr ''New''],
                                 [''id'' \<mapsto> JStr ''c''], [''id'' \<mapsto> JStr ''c'', ''x'' \<mapsto> JNum 1]],
       req_page = None, req_limit = None, searchTerm = JUndefined, folderId = JUndefined,
       req_prompt = None, req_id = JUndefined\<rparr>"]
  by (simp add: cid_def getProp_def)

subsection \<open>The earlier implementation\<close>

text \<open>
  C10: the two implementations of \<open>addConversations\<close> in the source agree. When the stored
  conversations have pairwise different ids, the version that goes through a \<open>Map\<close> and
  the version that uses \<open>findIndex\<close> on the array end in the same state (the same records in
  the same order) and return the same response (the same count), for every batch.
\<close>

theorem addConversations_findIndex_equiv:
  "distinct (map cid (conversations st)) \<Longrightarrow>
   addConversations st request = addConversations_findIndex st request"
proof -
  assume d: "distinct (map cid (conversations st))"
  have "Map_values (fold addStep ns (Map_new (map (\<lambda>c. (cid c, c)) (conversations st)))) =
        fold addStep_findIndex ns (conversations st)" for ns
    using mapAfter_findIndex[OF d, of ns] by (simp add: mapAfter_def entriesOf_eq)
  then show ?thesis
    by (simp add: addConversations_def addConversations_findIndex_def Let_def
        split: option.splits)
qed

theorem addConversations_findIndex_equiv_witness:
  "distinct (map cid (conversations
      \<lparr>conversations = [[''id'' \<mapsto> JStr ''a'', ''title'' \<mapsto> JStr ''Old''], [''id'' \<mapsto> JStr ''b'']],
       folders = [], prompts = [], user = Map.empty, heap = (\<lambda>a. Map.empty),
       nextAddr = 0, saveCalls = 0\<rparr>))
   \<and> addConversations
      \<lparr>conversations = [[''id'' \<mapsto> JStr ''a'', ''title'' \<mapsto> JStr ''Old''], [''id'' \<mapsto> JStr ''b'']],
       folders = [], prompts = [], user = Map.empty, heap = (\<lambda>a. Map.empty),
       nextAddr = 0, saveCalls = 0\<rparr>
      \<lparr>req_type = JStr ''addConversations'', req_action = JUndefined,
       req_conversations = Some [[''id'' \<mapsto> JStr ''b'', ''title'' \<mapsto> JStr ''New''],
                                 [''id'' \<mapsto> JStr ''c'']],
       req_page = None, req_limit = None, searchTerm = JUndefined, folderId = JUndefined,
       req_prompt = None, req_id = JUndefined\<rparr>
     = addConversations_findIndex
      \<lparr>conversations = [[''id'' \<mapsto> JStr ''a'', ''title'' \<mapsto> JStr ''Old''], [''id'' \<mapsto> JStr ''b'']],
       folders = [], prompts = [], user = Map.empty, heap = (\<lambda>a. Map.empty),
       nextAddr = 0, saveCalls = 0\<rparr>
      \<lparr>req_type = JStr ''addConversations'', req_action = JUndefined,
       req_conversations = Some [[''id'' \<mapsto> JStr ''b'', ''title'' \<mapsto> JStr ''New''],
                                 [''id'' \<mapsto> JStr ''c'']],
       req_page = None, req_limit = None, searchTerm = JUndefined, folderId = JUndefined,
       req_prompt = None, req_id = JUndefined\<rparr>"
  using addConversations_findIndex_equiv
    [where st = "\<lparr>conversations = [[''id'' \<mapsto> JStr ''a'', ''title'' \<mapsto> JStr ''Old''], [''id'' \<mapsto> JStr ''b'']],
       folders = [], prompts = [], user = Map.empty, heap = (\<lambda>a. Map.empty),
       nextAddr = 0, saveCalls = 0\<rparr>"
     and request = "\<lparr>req_type = JStr ''addConversations'', req_action = JUndefined,
       req_conversations = Some [[''id'' \<mapsto> JStr ''b'', ''title'' \<mapsto> JStr ''New''],
                                 [''id'' \<mapsto> JStr ''c'']],
       req_page = None, req_limit = None, searchTerm = JUndefined, folderId = JUndefined,
       req_prompt = None, req_id = JUndefined\<rparr>"]
  by (simp add: cid_def getProp_def)

subsection \<open>Merge or insert, in input order\<close>








section \<open>The query engine\<close>

subsection \<open>The sort keeps the elements\<close>




text \<open>
  When every timestamp is a number the comparator is consistent, and the sort is the
  stable sort by descending time.
\<close>

lemma sortInsert_valid:
  assumes "timeOf e x \<noteq> None" and "\<forall>y\<in>set ys. timeOf e y \<noteq> None"
  shows "sortInsert (compareFn e) x ys = insort_key (\<lambda>c. - the (timeOf e c)) x ys"
  using assms by (induction ys) (auto simp: compareFn_def)

lemma Array_sort_valid:
  assumes "\<forall>x\<in>set xs. timeOf e x \<noteq> None"
  shows "Array_sort (compareFn e) xs = sort_key (\<lambda>c. - the (timeOf e c)) xs"
  using assms
proof (induction xs)
  case Nil
  then show ?case by (simp add: Array_sort_def)
next
  case (Cons x xs)
  then have "Array_sort (compareFn e) xs = sort_key (\<lambda>c. - the (timeOf e c)) xs"
    by simp
  moreover have "\<forall>y\<in>set (sort_key (\<lambda>c. - the (timeOf e c)) xs). timeOf e y \<noteq> None"
    using Cons.prems by simp
  ultimately show ?case
    using Cons.prems by (simp add: Array_sort_def sortInsert_valid)
qed

subsection \<open>A folder id that names no folder\<close>

lemma folderFilter_absent: "folderFilter st JUndefined results = results"
  by (simp add: folderFilter_def)

lemma folderFilter_unknown:
  assumes "truthy fid" "fid \<noteq> JStr ''all''" "fid \<noteq> JStr ''trash''"
    and "\<forall>f\<in>set (folders st). folder_id f \<noteq> fid"
  shows "folderFilter st fid results = results"
proof -
  from assms(4) have "find (\<lambda>f. folder_id f = fid) (folders st) = None"
    by (simp add: find_None_iff)
  with assms(1-3) show ?thesis
    by (simp add: folderFilter_def)
qed

text \<open>
  C6: a folder id that is truthy, is neither \<open>"all"\<close> nor \<open>"trash"\<close> and is the id of no
  stored folder filters nothing. The call returns what the same request without a folder
  id returns: the same response (text-filtered, sorted and paginated in the same way, or
  the same exception of the text filter) and the same state.
\<close>

theorem getConversations_unknown_folder:
  assumes "truthy fid" "fid \<noteq> JStr ''all''" "fid \<noteq> JStr ''trash''"
    and "\<forall>f\<in>set (folders st). folder_id f \<noteq> fid"
  shows "getConversations e st (request\<lparr>folderId := fid\<rparr>) =
         getConversations e st (request\<lparr>folderId := JUndefined\<rparr>)"
  by (simp add: getConversations_def Let_def folderFilter_absent folderFilter_unknown[OF assms]
      split: sum.splits)

theorem getConversations_unknown_folder_witness:
  "truthy (JStr ''nope'') \<and> JStr ''nope'' \<noteq> JStr ''all'' \<and> JStr ''nope'' \<noteq> JStr ''trash''
   \<and> getConversations
     \<lparr>Date_parse = (\<lambda>s. None), randomUUID = ''u1''\<rparr>
     \<lparr>conversations = [[''id'' \<mapsto> JStr ''a'', ''update_time'' \<mapsto> JNum 1],
                       [''id'' \<mapsto> JStr ''b'', ''update_time'' \<mapsto> JNum 2]],
      folders = [\<lparr>folder_id = JStr ''work'', conversationIds = Some [JStr ''b'']\<rparr>],
      prompts = [], user = Map.empty, heap = (\<lambda>a. Map.empty),
      nextAddr = 0, saveCalls = 0\<rparr>
     (\<lparr>req_type = JStr ''getConversations'', req_action = JUndefined,
      req_conversations = None, req_page = None, req_limit = None,
      searchTerm = JUndefined, folderId = JStr ''work'', req_prompt = None,
      req_id = JUndefined\<rparr>\<lparr>folderId := JStr ''nope''\<rparr>)
   = getConversations
     \<lparr>Date_parse = (\<lambda>s. None), randomUUID = ''u1''\<rparr>
     \<lparr>conversations = [[''id'' \<mapsto> JStr ''a'', ''update_time'' \<mapsto> JNum 1],
                       [''id'' \<mapsto> JStr ''b'', ''update_time'' \<mapsto> JNum 2]],
      folders = [\<lparr>folder_id = JStr ''work'', conversationIds = Some [JStr ''b'']\<rparr>],
      prompts = [], user = Map.empty, heap = (\<lambda>a. Map.empty),
      nextAddr = 0, saveCalls = 0\<rparr>
     (\<lparr>req_type = JStr ''getConversations'', req_action = JUndefined,
      req_conversations = None, req_page = None, req_limit = None,
      searchTerm = JUndefined, folderId = JStr ''work'', req_prompt = None,
      req_id = JUndefined\<rparr>\<lparr>folderId := JUndefined\<rparr>)
   \<and> getConversations
     \<lparr>Date_parse = (\<lambda>s. None), randomUUID = ''u1''\<rparr>
     \<lparr>conversations = [[''id'' \<mapsto> JStr ''a'', ''update_time'' \<mapsto> JNum 1],
                       [''id'' \<mapsto> JStr ''b'', ''update_time'' \<mapsto> JNum 2]],
      folders = [\<lparr>folder_id = JStr ''work'', conversationIds = Some [JStr ''b'']\<rparr>],
      prompts = [], user = Map.empty, heap = (\<lambda>a. Map.empty),
      nextAddr = 0, saveCalls = 0\<rparr>
     (\<lparr>req_type = JStr ''getConversations'', req_action = JUndefined,
      req_conversations = None, req_page = None, req_limit = None,
      searchTerm = JUndefined, folderId = JStr ''work'', req_prompt = None,
      req_id = JUndefined\<rparr>\<lparr>folderId := JUndefined\<rparr>)
   = Inr (\<lparr>conversations = [[''id'' \<mapsto> JStr ''b'', ''update_time'' \<mapsto> JNum 2],
                             [''id'' \<mapsto> JStr ''a'', ''update_time'' \<mapsto> JNum 1]],
           folders = [\<lparr>folder_id = JStr ''work'', conversationIds = Some [JStr ''b'']\<rparr>],
           prompts = [], user = Map.empty, heap = (\<lambda>a. Map.empty),
           nextAddr = 0, saveCalls = 0\<rparr>,
          RespConversations True
            [[''id'' \<mapsto> JStr ''b'', ''update_time'' \<mapsto> JNum 2],
             [''id'' \<mapsto> JStr ''a'', ''update_time'' \<mapsto> JNum 1]] 2 1 20)"
proof -
  let ?e = "\<lparr>Date_parse = (\<lambda>s. None), randomUUID = ''u1''\<rparr>"
  let ?st = "\<lparr>conversations = [[''id'' \<mapsto> JStr ''a'', ''update_time'' \<mapsto> JNum 1],
                       [''id'' \<mapsto> JStr ''b'', ''update_time'' \<mapsto> JNum 2]],
      folders = [\<lparr>folder_id = JStr ''work'', conversationIds = Some [JStr ''b'']\<rparr>],
      prompts = [], user = Map.empty, heap = (\<lambda>a. Map.empty),
      nextAddr = 0, saveCalls = 0\<rparr>"
  let ?r = "\<lparr>req_type = JStr ''getConversations'', req_action = JUndefined,
      req_conversations = None, req_page = None, req_limit = None,
      searchTerm = JUndefined, folderId = JStr ''work'', req_prompt = None,
      req_id = JUndefined\<rparr>"
  have h1: "truthy (JStr ''nope'')" by simp
  have h2: "JStr ''nope'' \<noteq> JStr ''all''" by simp
  have h3: "JStr ''nope'' \<noteq> JStr ''trash''" by simp
  have h4: "\<forall>f\<in>set (folders ?st). folder_id f \<noteq> JStr ''nope''" by simp
  have v: "getConversations ?e ?st (?r\<lparr>folderId := JUndefined\<rparr>) =
     Inr (?st\<lparr>conversations := [[''id'' \<mapsto> JStr ''b'', ''update_time'' \<mapsto> JNum 2],
                                  [''id'' \<mapsto> JStr ''a'', ''update_time'' \<mapsto> JNum 1]]\<rparr>,
          RespConversations True
            [[''id'' \<mapsto> JStr ''b'', ''update_time'' \<mapsto> JNum 2],
             [''id'' \<mapsto> JStr ''a'', ''update_time'' \<mapsto> JNum 1]] 2 1 20)"
    by (simp add: getConversations_def searchFilter_def folderFilter_def sortInPlace_def
        deref_def Array_sort_def Array_slice_def compareFn_def timeOf_def getTime_def
        getProp_def)
  from getConversations_unknown_folder[OF h1 h2 h3 h4, of ?e ?r] h1 h2 h3 v show ?thesis
    by simp
qed

subsection \<open>The trash sentinel\<close>





subsection \<open>The sort works on the array of the store\<close>

text \<open>
  When a filter has run, \<open>results\<close> is a new array and the state stays as it is. Otherwise
  the sort reorders \<open>localDB.conversations\<close> itself.
\<close>

lemma getConversations_frame:
  assumes "getConversations e st request = Inr (st', response)"
  shows "st' = st \<or> st' = st\<lparr>conversations := Array_sort (compareFn e) (conversations st)\<rparr>"
proof (cases "searchFilter st (searchTerm request) StoreArray")
  case (Inl err)
  with assms show ?thesis by (simp add: getConversations_def)
next
  case (Inr results1)
  with assms show ?thesis
    by (cases "folderFilter st (folderId request) results1")
       (auto simp: getConversations_def sortInPlace_def Let_def)
qed

lemma getConversations_filtered_frame:
  assumes "truthy (searchTerm request)"
    and "getConversations e st request = Inr (st', response)"
  shows "st' = st"
proof (cases "searchFilter st (searchTerm request) StoreArray")
  case (Inl err)
  with assms(2) show ?thesis by (simp add: getConversations_def)
next
  case (Inr results1)
  with assms(1) obtain xs where r1: "results1 = Fresh xs"
    by (auto simp: searchFilter_def split: jsval.splits sum.splits)
  have "\<exists>ys. folderFilter st (folderId request) (Fresh xs) = Fresh ys"
    by (simp add: folderFilter_def split: option.splits)
  then obtain ys where "folderFilter st (folderId request) (Fresh xs) = Fresh ys" ..
  with assms(2) Inr r1 show ?thesis
    by (auto simp: getConversations_def sortInPlace_def Let_def)
qed

text \<open>
  C2 says that \<open>getConversations\<close> leaves the state as it is, the order of the conversations
  included. The code at a request without filters: the store holds \<open>a\<close> (time 1) before \<open>b\<close>
  (time 2), and after the call it holds \<open>b\<close> before \<open>a\<close>.
\<close>

theorem getConversations_sorts_store:
  "getConversations
     \<lparr>Date_parse = (\<lambda>s. None), randomUUID = ''u1''\<rparr>
     \<lparr>conversations = [[''id'' \<mapsto> JStr ''a'', ''update_time'' \<mapsto> JNum 1],
                       [''id'' \<mapsto> JStr ''b'', ''update_time'' \<mapsto> JNum 2]],
      folders = [], prompts = [], user = Map.empty, heap = (\<lambda>a. Map.empty),
      nextAddr = 0, saveCalls = 0\<rparr>
     \<lparr>req_type = JStr ''getConversations'', req_action = JUndefined,
      req_conversations = None, req_page = None, req_limit = None,
      searchTerm = JUndefined, folderId = JUndefined, req_prompt = None,
      req_id = JUndefined\<rparr>
   = Inr (\<lparr>conversations = [[''id'' \<mapsto> JStr ''b'', ''update_time'' \<mapsto> JNum 2],
                             [''id'' \<mapsto> JStr ''a'', ''update_time'' \<mapsto> JNum 1]],
           folders = [], prompts = [], user = Map.empty, heap = (\<lambda>a. Map.empty),
           nextAddr = 0, saveCalls = 0\<rparr>,
          RespConversations True
            [[''id'' \<mapsto> JStr ''b'', ''update_time'' \<mapsto> JNum 2],
             [''id'' \<mapsto> JStr ''a'', ''update_time'' \<mapsto> JNum 1]] 2 1 20)"
  by (simp add: getConversations_def searchFilter_def folderFilter_def sortInPlace_def
      deref_def Array_sort_def Array_slice_def compareFn_def timeOf_def getTime_def
      getProp_def)

text \<open>
  The example of the specification: update times 1, 3, 2, no search term, page 1 with
  limit 2. The two most recent conversations come back, most recent first, and \<open>total\<close> is
  3. No filter has run, so the store is left in sort order as well.
\<close>

lemma getConversations_example:
  "getConversations
     \<lparr>Date_parse = (\<lambda>s. None), randomUUID = ''u1''\<rparr>
     \<lparr>conversations = [[''id'' \<mapsto> JStr ''a'', ''update_time'' \<mapsto> JNum 1],
                       [''id'' \<mapsto> JStr ''b'', ''update_time'' \<mapsto> JNum 3],
                       [''id'' \<mapsto> JStr ''c'', ''update_time'' \<mapsto> JNum 2]],
      folders = [], prompts = [], user = Map.empty, heap = (\<lambda>a. Map.empty),
      nextAddr = 0, saveCalls = 0\<rparr>
     \<lparr>req_type = JStr ''getConversations'', req_action = JUndefined,
      req_conversations = None, req_page = Some 1, req_limit = Some 2,
      searchTerm = JUndefined, folderId = JUndefined, req_prompt = None,
      req_id = JUndefined\<rparr>
   = Inr (\<lparr>conversations = [[''id'' \<mapsto> JStr ''b'', ''update_time'' \<mapsto> JNum 3],
                             [''id'' \<mapsto> JStr ''c'', ''update_time'' \<mapsto> JNum 2],
                             [''id'' \<mapsto> JStr ''a'', ''update_time'' \<mapsto> JNum 1]],
           folders = [], prompts = [], user = Map.empty, heap = (\<lambda>a. Map.empty),
           nextAddr = 0, saveCalls = 0\<rparr>,
          RespConversations True
            [[''id'' \<mapsto> JStr ''b'', ''update_time'' \<mapsto> JNum 3],
             [''id'' \<mapsto> JStr ''c'', ''update_time'' \<mapsto> JNum 2]] 3 1 2)"
  by (simp add: getConversations_def searchFilter_def folderFilter_def sortInPlace_def
      deref_def Array_sort_def Array_slice_def compareFn_def timeOf_def getTime_def
      getProp_def)

section \<open>The prompt controllers\<close>






section \<open>The message router\<close>

subsection \<open>The liveness check\<close>

lemma retryLoop_None:
  "retryLoop isDBReady retries = None \<longleftrightarrow> (\<forall>t. retries \<le> t \<and> t < maxRetries \<longrightarrow> \<not> isDBReady t)"
proof (induction isDBReady retries rule: retryLoop.induct)
  case (1 isDBReady retries)
  show ?case
  proof (cases "retries < maxRetries")
    case False
    then show ?thesis by (auto simp: retryLoop.simps)
  next
    case True
    show ?thesis
    proof (cases "isDBReady retries")
      case ready: True
      with True show ?thesis by (auto simp: retryLoop.simps)
    next
      case notready: False
      have "(\<forall>t. Suc retries \<le> t \<and> t < maxRetries \<longrightarrow> \<not> isDBReady t) \<longleftrightarrow>
            (\<forall>t. retries \<le> t \<and> t < maxRetries \<longrightarrow> \<not> isDBReady t)"
        using notready by (metis Suc_leD Suc_leI le_neq_implies_less)
      with 1[OF True notready] True notready show ?thesis
        by (simp add: retryLoop.simps)
    qed
  qed
qed

lemma Controller_ping: "Controller (JStr ''ping'') = None"
  by (simp add: Controller_def controllerNames_def objectPrototypeNames_def)

lemma handleMessage_ping:
  "requestAction request = JStr ''ping'' \<Longrightarrow> handleMessage e st request = (st, RespStatus ''ok'')"
  by (simp add: handleMessage_def Controller_ping)

text \<open>
  C3, as the code has it: a request whose action is \<open>"ping"\<close> waits for the store like
  every other request. If the flag is set when the message arrives or at one of
  the ten rounds of the retry loop, the answer is \<open>{ status: "ok" }\<close>, no controller runs
  and the state is as before; if it is set at none of them, the answer is the failure
  \<open>Database initialization timeout\<close>.
\<close>

theorem ping_waits_for_readiness:
  assumes "requestAction request = JStr ''ping''"
  shows "onMessage e isDBReady st request =
           (if \<exists>t<maxRetries. isDBReady t then (st, RespStatus ''ok'')
            else (st, RespFailure False ''Database initialization timeout''))"
proof (cases "isDBReady 0")
  case True
  then have "\<exists>t<maxRetries. isDBReady t"
    by (intro exI[of _ 0]) (simp add: maxRetries_def)
  with True show ?thesis
    by (simp add: onMessage_def handleMessage_ping[OF assms])
next
  case False
  show ?thesis
  proof (cases "retryLoop isDBReady 0")
    case None
    then have "\<not> (\<exists>t<maxRetries. isDBReady t)" by (simp add: retryLoop_None)
    with False None show ?thesis by (simp add: onMessage_def)
  next
    case (Some t)
    then have "retryLoop isDBReady 0 \<noteq> None" by simp
    then have "\<exists>t<maxRetries. isDBReady t" by (auto simp: retryLoop_None)
    with False Some show ?thesis
      by (simp add: onMessage_def handleMessage_ping[OF assms])
  qed
qed

theorem ping_waits_for_readiness_witness:
  "requestAction
     \<lparr>req_type = JUndefined, req_action = JStr ''ping'',
      req_conversations = None, req_page = None, req_limit = None,
      searchTerm = JUndefined, folderId = JUndefined, req_prompt = None,
      req_id = JUndefined\<rparr> = JStr ''ping''
   \<and> onMessage
     \<lparr>Date_parse = (\<lambda>s. None), randomUUID = ''u1''\<rparr>
     (\<lambda>t. 3 \<le> t)
     \<lparr>conversations = [], folders = [], prompts = [], user = Map.empty,
      heap = (\<lambda>a. Map.empty), nextAddr = 0, saveCalls = 0\<rparr>
     \<lparr>req_type = JUndefined, req_action = JStr ''ping'',
      req_conversations = None, req_page = None, req_limit = None,
      searchTerm = JUndefined, folderId = JUndefined, req_prompt = None,
      req_id = JUndefined\<rparr>
   = (\<lparr>conversations = [], folders = [], prompts = [], user = Map.empty,
       heap = (\<lambda>a. Map.empty), nextAddr = 0, saveCalls = 0\<rparr>,
      RespStatus ''ok'')"
proof -
  let ?r = "\<lparr>req_type = JUndefined, req_action = JStr ''ping'',
      req_conversations = None, req_page = None, req_limit = None,
      searchTerm = JUndefined, folderId = JUndefined, req_prompt = None,
      req_id = JUndefined\<rparr>"
  have h: "requestAction ?r = JStr ''ping''"
    by (simp add: requestAction_def)
  have ready: "\<exists>t<maxRetries. (3::nat) \<le> t"
    by (rule exI[of _ 3]) (simp add: maxRetries_def)
  from ping_waits_for_readiness[OF h, where isDBReady = "\<lambda>t. 3 \<le> t"] ready h
  show ?thesis by simp
qed

text \<open>A store that does not become ready: the ping is answered with the failure.\<close>

theorem ping_timeout_counterexample:
  "onMessage
     \<lparr>Date_parse = (\<lambda>s. None), randomUUID = ''u1''\<rparr>
     (\<lambda>t. False)
     \<lparr>conversations = [], folders = [], prompts = [], user = Map.empty,
      heap = (\<lambda>a. Map.empty), nextAddr = 0, saveCalls = 0\<rparr>
     \<lparr>req_type = JUndefined, req_action = JStr ''ping'',
      req_conversations = None, req_page = None, req_limit = None,
      searchTerm = JUndefined, folderId = JUndefined, req_prompt = None,
      req_id = JUndefined\<rparr>
   = (\<lparr>conversations = [], folders = [], prompts = [], user = Map.empty,
       heap = (\<lambda>a. Map.empty), nextAddr = 0, saveCalls = 0\<rparr>,
      RespFailure False ''Database initialization timeout'')
   \<and> RespFailure False ''Database initialization timeout'' \<noteq> RespStatus ''ok''"
  by (simp add: onMessage_def retryLoop_None[THEN iffD2])

subsection \<open>Unknown actions and exceptions\<close>

text \<open>
  An action that names neither a controller nor a member of \<open>Object.prototype\<close>, and is
  not \<open>"ping"\<close>, gets the failure \<open>Unknown action\<close>; so does an action that is not a string.
  An exception of a controller becomes the failure with its message.
\<close>

lemma handleMessage_unknown:
  "Controller (requestAction request) = None \<Longrightarrow> requestAction request \<noteq> JStr ''ping'' \<Longrightarrow>
   handleMessage e st request = (st, RespFailure False ''Unknown action'')"
  by (simp add: handleMessage_def)

lemma handleMessage_caught:
  "Controller (requestAction request) = Some m \<Longrightarrow>
   callMember e st request m = Inl (TypeError message) \<Longrightarrow>
   handleMessage e st request = (st, RespFailure False message)"
  by (simp add: handleMessage_def)

lemma getConversations_throws:
  "getConversations e st (request\<lparr>searchTerm := JNum 5\<rparr>) =
     Inl (TypeError ''searchTerm.toLowerCase is not a function'')"
  by (simp add: getConversations_def searchFilter_def)

lemma handleMessage_catches_example:
  "handleMessage e st
     \<lparr>req_type = JStr ''getConversations'', req_action = JUndefined,
      req_conversations = None, req_page = None, req_limit = None,
      searchTerm = JNum 5, folderId = JUndefined, req_prompt = None,
      req_id = JUndefined\<rparr>
   = (st, RespFailure False ''searchTerm.toLowerCase is not a function'')"
  by (simp add: handleMessage_def requestAction_def Controller_def controllerNames_def
      getConversations_def searchFilter_def)

lemma Controller_absent:
  assumes "name \<notin> set (map fst controllerNames)" and "name \<notin> set objectPrototypeNames"
  shows "Controller (JStr name) = None"
proof -
  from assms(1) have "map_of controllerNames name = None"
    by (simp add: map_of_eq_None_iff)
  with assms(2) show ?thesis
    by (simp add: Controller_def)
qed

lemma handleMessage_unknown_name:
  assumes "requestAction request = JStr name"
    and "name \<notin> set (map fst controllerNames)" and "name \<notin> set objectPrototypeNames"
    and "name \<noteq> ''ping''"
  shows "handleMessage e st request = (st, RespFailure False ''Unknown action'')"
  using assms(1,4) Controller_absent[OF assms(2,3)]
  by (simp add: handleMessage_def)

lemma handleMessage_not_a_string:
  assumes "\<And>name. requestAction request \<noteq> JStr name"
  shows "handleMessage e st request = (st, RespFailure False ''Unknown action'')"
proof (cases "requestAction request")
  case (JStr name)
  with assms show ?thesis by blast
qed (simp_all add: handleMessage_def Controller_def)

lemma Controller_toString: "Controller (JStr ''toString'') = Some (Inherited ''toString'')"
  by (simp add: Controller_def controllerNames_def objectPrototypeNames_def)

text \<open>
  C9 says that every action that names no controller and is not \<open>"ping"\<close> gets the failure
  \<open>Unknown action\<close>. The code at the action \<open>"toString"\<close>: the lookup finds the method every
  object inherits, the router calls it and sends its result, the string
  \<open>[object Object]\<close>.
\<close>

theorem handleMessage_inherited_member:
  "handleMessage
     \<lparr>Date_parse = (\<lambda>s. None), randomUUID = ''u1''\<rparr>
     \<lparr>conversations = [], folders = [], prompts = [], user = Map.empty,
      heap = (\<lambda>a. Map.empty), nextAddr = 0, saveCalls = 0\<rparr>
     \<lparr>req_type = JUndefined, req_action = JStr ''toString'',
      req_conversations = None, req_page = None, req_limit = None,
      searchTerm = JUndefined, folderId = JUndefined, req_prompt = None,
      req_id = JUndefined\<rparr>
   = (\<lparr>conversations = [], folders = [], prompts = [], user = Map.empty,
       heap = (\<lambda>a. Map.empty), nextAddr = 0, saveCalls = 0\<rparr>,
      RespValue (JStr ''[object Object]''))"
  by (simp add: handleMessage_def requestAction_def Controller_toString callInherited_def)

end
